theory Spec2Isabelle
  imports Main
begin

section \<open>Charger accessory (platformAccessory.ts)\<close>

subsection \<open>Values, keys and the accessory record\<close>

text \<open>
  A \<open>CharacteristicValue\<close> of the host is a primitive (number, boolean or string). The
  handlers compare values with \<open>===\<close>, which on primitives of this kind is equality of
  the tagged value. Numbers are integers here (no NaN).
\<close>

datatype cvalue = Num int | Bool bool | Str string

text \<open>
  The enumerations of the host library (hap-nodejs) that the accessory reads through
  \<open>this.platform.Characteristic\<close>: LockCurrentState has UNSECURED 0, SECURED 1, JAMMED 2,
  UNKNOWN 3; LockTargetState has UNSECURED 0, SECURED 1; ContactSensorState has
  CONTACT_DETECTED 0, CONTACT_NOT_DETECTED 1.
\<close>

definition LockCurrentState_UNSECURED :: cvalue where "LockCurrentState_UNSECURED = Num 0"
definition LockCurrentState_SECURED :: cvalue where "LockCurrentState_SECURED = Num 1"
definition LockCurrentState_UNKNOWN :: cvalue where "LockCurrentState_UNKNOWN = Num 3"
definition LockTargetState_UNSECURED :: cvalue where "LockTargetState_UNSECURED = Num 0"
definition LockTargetState_SECURED :: cvalue where "LockTargetState_SECURED = Num 1"
definition CONTACT_DETECTED :: cvalue where "CONTACT_DETECTED = Num 0"
definition CONTACT_NOT_DETECTED :: cvalue where "CONTACT_NOT_DETECTED = Num 1"

text \<open>The fields of \<open>ResponseMini\<close> and \<open>ResponseSession\<close> that the accessory reads.\<close>

record response_mini =
  address :: string
  isDisabled :: int

record response_session =
  IsPaused :: bool

record accessory_states =
  LockCurrentState :: cvalue
  LockTargetState :: cvalue
  On :: cvalue
  ContactSensorState :: cvalue

datatype state_key = Key_LockCurrentState | Key_LockTargetState | Key_On | Key_ContactSensorState

datatype service = lock | outlet | contactSensor

fun get_state :: "state_key \<Rightarrow> accessory_states \<Rightarrow> cvalue" where
  "get_state Key_LockCurrentState st = LockCurrentState st"
| "get_state Key_LockTargetState st = LockTargetState st"
| "get_state Key_On st = On st"
| "get_state Key_ContactSensorState st = ContactSensorState st"

fun set_state :: "state_key \<Rightarrow> cvalue \<Rightarrow> accessory_states \<Rightarrow> accessory_states" where
  "set_state Key_LockCurrentState v st = st\<lparr>LockCurrentState := v\<rparr>"
| "set_state Key_LockTargetState v st = st\<lparr>LockTargetState := v\<rparr>"
| "set_state Key_On v st = st\<lparr>On := v\<rparr>"
| "set_state Key_ContactSensorState v st = st\<lparr>ContactSensorState := v\<rparr>"

text \<open>
  The methods of the API client that the accessory invokes, and the effects it has on
  its collaborators, in the order they happen. \<open>UpdateCharacteristic\<close> is
  \<open>service.updateCharacteristic\<close> (the notification to the host), \<open>SetValue\<close> is
  \<open>getCharacteristic(..).setValue\<close>, \<open>LogWarn\<close> and \<open>LogError\<close> are \<open>log.warn\<close> and
  \<open>log.error\<close>; debug and info logging is not recorded. \<open>TaskSettled t ok\<close> marks the
  end of a queued task, resolved (\<open>ok\<close>) or rejected. \<open>UnhandledRejection\<close> is a promise
  that rejects with no handler attached to it.
\<close>

datatype api_call =
    MiniEnable string | MiniDisable string
  | SessionPause | SessionUnpause
  | Session | SessionAlive

datatype task = CheckSessionTask | LockTask cvalue | OutletTask

datatype event =
    ApiCall api_call
  | UpdateCharacteristic service state_key cvalue
  | SetValue service state_key cvalue
  | LogWarn
  | LogError
  | TaskSettled task bool
  | UnhandledRejection

text \<open>The suspension point (\<open>await\<close>) at which the task in flight is waiting.\<close>

datatype awaiting =
    AwaitSession
  | AwaitSessionAlive
  | AwaitLockPromise cvalue
  | AwaitOutletPromise

datatype 'a outcome = Fulfilled 'a | Rejected

text \<open>
  The accessory object. \<open>queue\<close> holds the waiting tasks of \<open>platform.queue\<close>
  (\<open>queue.size\<close>), \<open>pending\<close> the task in flight (\<open>queue.pending\<close>), \<open>timers\<close> the number of
  \<open>setTimeout\<close> callbacks of \<open>setOutletOn\<close> not yet fired (they are all the same closure),
  \<open>trace\<close> the effects so far, oldest first, and \<open>exited\<close> whether the process that
  holds the accessory has ended.
\<close>

record accessory =
  device :: response_mini
  session :: "response_session option"
  sessionAlive :: bool
  lastUpdated :: int
  states :: accessory_states
  resettingOutletOff :: bool
  queue :: "task list"
  pending :: "awaiting option"
  timers :: nat
  trace :: "event list"
  exited :: bool

definition emit :: "event \<Rightarrow> accessory \<Rightarrow> accessory" where
  "emit e acc = acc\<lparr>trace := trace acc @ [e]\<rparr>"

text \<open>
  Nothing in the repository handles the \<open>unhandledRejection\<close> event, and under the Node
  versions that \<open>package.json\<close> declares (18, 20, 22) a rejection that no handler takes
  is raised as an uncaught exception, which ends the process.
\<close>

definition unhandled_rejection :: "accessory \<Rightarrow> accessory" where
  "unhandled_rejection acc = (emit UnhandledRejection acc)\<lparr>exited := True\<rparr>"

subsection \<open>updateState and the reconciliation pass\<close>

definition updateState ::
  "service \<Rightarrow> state_key \<Rightarrow> cvalue \<Rightarrow> bool \<Rightarrow> bool \<Rightarrow> accessory \<Rightarrow> accessory" where
  "updateState svc key val skipCharacteristicUpdate forced acc =
     (if val = get_state key (states acc) \<and> \<not> forced then acc
      else
        let acc1 = acc\<lparr>states := set_state key val (states acc)\<rparr>
        in if skipCharacteristicUpdate then acc1
           else emit (UpdateCharacteristic svc key val) acc1)"

definition computeLockCurrentState :: "accessory \<Rightarrow> cvalue" where
  "computeLockCurrentState acc =
     (if isDisabled (device acc) = 1 then LockCurrentState_SECURED
      else LockCurrentState_UNSECURED)"

definition computeOutletOn :: "accessory \<Rightarrow> bool" where
  "computeOutletOn acc =
     (case session acc of None \<Rightarrow> False | Some s \<Rightarrow> \<not> IsPaused s)"

definition computeContactSensorState :: "accessory \<Rightarrow> cvalue" where
  "computeContactSensorState acc =
     (if sessionAlive acc then CONTACT_DETECTED else CONTACT_NOT_DETECTED)"

definition computeAll :: "accessory \<Rightarrow> accessory" where
  "computeAll acc =
     (let a1 = updateState lock Key_LockCurrentState (computeLockCurrentState acc) False False acc;
          a2 = updateState lock Key_LockTargetState (computeLockCurrentState a1) True False a1;
          a3 = updateState outlet Key_On (Bool (computeOutletOn a2)) False False a2
      in updateState contactSensor Key_ContactSensorState (computeContactSensorState a3)
           False False a3)"

subsection \<open>The command queue\<close>

text \<open>
  Modelled from the spec: \<open>platform.queue\<close> (its construction is not among the sources)
  is a queue with concurrency limit 1 whose tasks execute strictly in submission order;
  a task that settles, resolved or rejected, lets the next one start. A task added to an
  idle queue starts at once and runs to its first \<open>await\<close>.
\<close>

fun start_task :: "task \<Rightarrow> accessory \<Rightarrow> accessory" where
  "start_task CheckSessionTask acc = emit (ApiCall Session) (acc\<lparr>pending := Some AwaitSession\<rparr>)"
| "start_task (LockTask v) acc = acc\<lparr>pending := Some (AwaitLockPromise v)\<rparr>"
| "start_task OutletTask acc = acc\<lparr>pending := Some AwaitOutletPromise\<rparr>"

definition tryToStartAnother :: "accessory \<Rightarrow> accessory" where
  "tryToStartAnother acc =
     (case pending acc of
        Some _ \<Rightarrow> acc
      | None \<Rightarrow> (case queue acc of
                   [] \<Rightarrow> acc
                 | t # ts \<Rightarrow> start_task t (acc\<lparr>queue := ts\<rparr>)))"

definition queue_add :: "task \<Rightarrow> accessory \<Rightarrow> accessory" where
  "queue_add t acc = tryToStartAnother (acc\<lparr>queue := queue acc @ [t]\<rparr>)"

definition task_settled :: "task \<Rightarrow> bool \<Rightarrow> accessory \<Rightarrow> accessory" where
  "task_settled t ok acc = tryToStartAnother (emit (TaskSettled t ok) (acc\<lparr>pending := None\<rparr>))"

subsection \<open>The session check and its task\<close>

definition checkSession :: "accessory \<Rightarrow> accessory" where
  "checkSession acc = queue_add CheckSessionTask acc"

text \<open>
  The task of \<open>checkSession\<close> resumed after \<open>await client.session()\<close>. A result is stored
  and \<open>client.sessionAlive()\<close> is called. A rejection leaves the task, there being no
  \<open>try\<close> around it: the queue settles the task as rejected and goes on to the next one
  in the same turn, and the promise that \<open>queue.add\<close> returned rejects; \<open>checkSession\<close>
  dropped that promise, so the rejection is unhandled and the process ends.
\<close>

definition session_settled :: "response_session option outcome \<Rightarrow> accessory \<Rightarrow> accessory" where
  "session_settled r acc =
     (case pending acc of
        Some AwaitSession \<Rightarrow>
          (case r of
             Rejected \<Rightarrow> unhandled_rejection (task_settled CheckSessionTask False acc)
           | Fulfilled s \<Rightarrow>
               emit (ApiCall SessionAlive) (acc\<lparr>session := s, pending := Some AwaitSessionAlive\<rparr>))
      | _ \<Rightarrow> acc)"

text \<open>
  The same task resumed after \<open>await client.sessionAlive()\<close>, which catches every failure
  of its request and returns false, so it never rejects.
\<close>

definition sessionAlive_settled :: "bool \<Rightarrow> accessory \<Rightarrow> accessory" where
  "sessionAlive_settled b acc =
     (case pending acc of
        Some AwaitSessionAlive \<Rightarrow>
          task_settled CheckSessionTask True (computeAll (acc\<lparr>sessionAlive := b\<rparr>))
      | _ \<Rightarrow> acc)"

text \<open>The callback of \<open>setInterval\<close> in the constructor.\<close>

definition interval_tick :: "response_mini \<Rightarrow> int \<Rightarrow> int \<Rightarrow> accessory \<Rightarrow> accessory" where
  "interval_tick context_device context_lastUpdated now acc =
     (if length (queue acc) + (case pending acc of None \<Rightarrow> 0 | Some _ \<Rightarrow> 1) > 0 then acc
      else if context_lastUpdated \<le> lastUpdated acc then acc
      else checkSession (acc\<lparr>device := context_device, lastUpdated := now\<rparr>))"

subsection \<open>The lock handler\<close>

datatype enable_action = Enable | Disable

text \<open>
  \<open>doEnableOrDisable\<close> is an async function: calling it runs its body up to the first
  \<open>await\<close>, so the client method is invoked during the call and the returned promise
  settles later.
\<close>

definition doEnableOrDisable :: "enable_action \<Rightarrow> accessory \<Rightarrow> accessory" where
  "doEnableOrDisable action acc =
     emit (ApiCall (case action of
                      Enable \<Rightarrow> MiniEnable (address (device acc))
                    | Disable \<Rightarrow> MiniDisable (address (device acc)))) acc"

definition setLockTargetState :: "cvalue \<Rightarrow> accessory \<Rightarrow> accessory" where
  "setLockTargetState val acc =
     (if val = LockTargetState (states acc) \<or> val = LockCurrentState (states acc) then acc
      else
        let acc1 = updateState lock Key_LockTargetState val False False acc
        in if val = LockTargetState_SECURED then
             queue_add (LockTask val) (doEnableOrDisable Disable acc1)
           else if val = LockTargetState_UNSECURED then
             queue_add (LockTask val) (doEnableOrDisable Enable acc1)
           else emit LogError acc1)"

subsection \<open>The outlet handler\<close>

datatype pause_action = Pause | Unpause

definition doPauseOrUnpause :: "pause_action \<Rightarrow> accessory \<Rightarrow> accessory" where
  "doPauseOrUnpause action acc =
     emit (ApiCall (case action of Pause \<Rightarrow> SessionPause | Unpause \<Rightarrow> SessionUnpause)) acc"

definition setOutletOn :: "cvalue \<Rightarrow> accessory \<Rightarrow> accessory" where
  "setOutletOn val acc =
     (if \<not> sessionAlive acc then
        (if resettingOutletOff acc then acc\<lparr>resettingOutletOff := False\<rparr>
         else (emit LogWarn acc)\<lparr>resettingOutletOff := True, timers := Suc (timers acc)\<rparr>)
      else if val = On (states acc) then acc
      else
        let acc1 = updateState outlet Key_On val False False acc
        in if val = Bool False then queue_add OutletTask (doPauseOrUnpause Pause acc1)
           else if val = Bool True then queue_add OutletTask (doPauseOrUnpause Unpause acc1)
           else emit LogError acc1)"

text \<open>
  The host's \<open>setValue\<close> on the On characteristic of the outlet service: it publishes the
  value and invokes the handler registered with \<open>onSet\<close>, which is \<open>setOutletOn\<close>.
\<close>

definition setValue_On :: "cvalue \<Rightarrow> accessory \<Rightarrow> accessory" where
  "setValue_On val acc = setOutletOn val (emit (SetValue outlet Key_On val) acc)"

text \<open>The callback of \<open>setTimeout\<close> in \<open>setOutletOn\<close>, when one is waiting.\<close>

definition outlet_timeout :: "accessory \<Rightarrow> accessory" where
  "outlet_timeout acc =
     (if timers acc = 0 then acc
      else setValue_On (Bool False)
             (updateState outlet Key_On (Bool False) True False
                (acc\<lparr>timers := timers acc - 1\<rparr>)))"

subsection \<open>The tasks of the two handlers\<close>

text \<open>
  The promise that a handler created settles. The handler calls the async function
  before \<open>queue.add\<close>, and the only handler the promise ever gets is the \<open>await promise\<close>
  inside the queued task, so the promise may settle while its task is still waiting.

  \<open>TaskInFlight\<close>: the task in flight has reached \<open>await promise\<close> and resumes with the
  outcome. \<open>TaskWaiting i\<close>: the promise belongs to the \<open>i\<close>-th waiting task, which has not
  started. Fulfilled, nothing happens yet: the task finds the promise fulfilled when it
  arrives at its \<open>await\<close>, which is the step \<open>promise_settled TaskInFlight (Fulfilled ())\<close>
  once it is in flight. Rejected, no handler is attached: the rejection is unhandled.
\<close>

datatype holder = TaskInFlight | TaskWaiting nat

definition promise_settled :: "holder \<Rightarrow> unit outcome \<Rightarrow> accessory \<Rightarrow> accessory" where
  "promise_settled h r acc =
     (case h of
        TaskInFlight \<Rightarrow>
          (case pending acc of
             Some (AwaitLockPromise v) \<Rightarrow>
               (case r of
                  Fulfilled _ \<Rightarrow>
                    task_settled (LockTask v) True
                      (updateState lock Key_LockCurrentState v False False acc)
                | Rejected \<Rightarrow>
                    task_settled (LockTask v) True
                      (updateState lock Key_LockCurrentState LockCurrentState_UNKNOWN False False
                         (emit LogError acc)))
           | Some AwaitOutletPromise \<Rightarrow>
               (case r of
                  Fulfilled _ \<Rightarrow> task_settled OutletTask True acc
                | Rejected \<Rightarrow> task_settled OutletTask True (emit LogError acc))
           | _ \<Rightarrow> acc)
      | TaskWaiting i \<Rightarrow>
          (if i < length (queue acc) \<and> queue acc ! i \<noteq> CheckSessionTask then
             (case r of
                Fulfilled _ \<Rightarrow> acc
              | Rejected \<Rightarrow> unhandled_rejection acc)
           else acc))"

subsection \<open>The process\<close>

text \<open>
  What can happen to the accessory: a call of a handler by the host, a tick of the
  interval, a timeout, or the settling of something a task or a handler waits for.
  Once the process has ended nothing happens any more.
\<close>

datatype input =
    IntervalTick response_mini int int
  | SessionSettled "response_session option outcome"
  | SessionAliveSettled bool
  | SetLockTargetState cvalue
  | SetOutletOn cvalue
  | PromiseSettled holder "unit outcome"
  | OutletTimeout

definition step :: "input \<Rightarrow> accessory \<Rightarrow> accessory" where
  "step i acc =
     (if exited acc then acc
      else case i of
             IntervalTick d u n \<Rightarrow> interval_tick d u n acc
           | SessionSettled r \<Rightarrow> session_settled r acc
           | SessionAliveSettled b \<Rightarrow> sessionAlive_settled b acc
           | SetLockTargetState v \<Rightarrow> setLockTargetState v acc
           | SetOutletOn v \<Rightarrow> setOutletOn v acc
           | PromiseSettled h r \<Rightarrow> promise_settled h r acc
           | OutletTimeout \<Rightarrow> outlet_timeout acc)"

fun run :: "input list \<Rightarrow> accessory \<Rightarrow> accessory" where
  "run [] acc = acc"
| "run (i # is) acc = run is (step i acc)"

text \<open>
  The constructor: the fields as it initialises them, then the first \<open>checkSession\<close>.
\<close>

definition initial_accessory :: "response_mini \<Rightarrow> int \<Rightarrow> accessory" where
  "initial_accessory dev now =
     \<lparr>device = dev, session = None, sessionAlive = False, lastUpdated = now,
      states = \<lparr>LockCurrentState = LockCurrentState_UNSECURED,
                LockTargetState = LockTargetState_UNSECURED,
                On = Bool False,
                ContactSensorState = CONTACT_NOT_DETECTED\<rparr>,
      resettingOutletOff = False, queue = [], pending = None, timers = 0, trace = [],
      exited = False\<rparr>"

definition new_accessory :: "response_mini \<Rightarrow> int \<Rightarrow> accessory" where
  "new_accessory dev now = checkSession (initial_accessory dev now)"

text \<open>A charger ``A1'' that is enabled, and the same charger disabled, for the examples.\<close>

definition mini_A1 :: response_mini where
  "mini_A1 = \<lparr>address = ''A1'', isDisabled = 0\<rparr>"

definition mini_A1_disabled :: response_mini where
  "mini_A1_disabled = \<lparr>address = ''A1'', isDisabled = 1\<rparr>"

definition acc0 :: accessory where
  "acc0 = initial_accessory mini_A1 0"

text \<open>
  The queue is never idle with tasks waiting: whenever no task is in flight, the waiting
  list is empty. Every step of the accessory keeps this.
\<close>

definition queue_idle_empty :: "accessory \<Rightarrow> bool" where
  "queue_idle_empty acc = (pending acc = None \<longrightarrow> queue acc = [])"

text \<open>The effects that a step added to the trace.\<close>

definition emitted :: "accessory \<Rightarrow> accessory \<Rightarrow> event list" where
  "emitted before after = drop (length (trace before)) (trace after)"

section \<open>API client (api.ts)\<close>

text \<open>
  The fields of \<open>ResponseToken\<close> that \<open>auth\<close> reads; \<open>None\<close> is a field that is absent.
  Times are milliseconds. A \<open>Date\<close> built from a number holds that number when it is
  within 8.64e15 milliseconds of the epoch and is invalid otherwise; an invalid date is
  not greater than any date.
\<close>

datatype date = Date int | InvalidDate

definition new_Date :: "int \<Rightarrow> date" where
  "new_Date ms = (if \<bar>ms\<bar> \<le> 8640000000000000 then Date ms else InvalidDate)"

text \<open>\<open>d > new Date()\<close>, the clock being a valid time.\<close>

definition date_after :: "date \<Rightarrow> int \<Rightarrow> bool" where
  "date_after d now = (case d of Date ms \<Rightarrow> ms > now | InvalidDate \<Rightarrow> False)"

record response_token =
  access_token :: "string option"
  expires_in :: "int option"

record auth_session =
  token :: string
  expires :: date
  header :: "(string \<times> string) list"
  raw :: response_token

record eo_mini_api =
  authSession :: "auth_session option"

text \<open>
  What \<open>fetch\<close> and \<open>resp.text()\<close> deliver, together with what \<open>JSON.parse\<close> makes of the
  raw body: a syntax error, the value \<open>null\<close>, or a value.
\<close>

datatype 'b parsed = NotJSON | JSONNull | JSONValue 'b

record 'b fetch_response =
  ok :: bool
  status :: int
  rawBody :: string
  parsed :: "'b parsed"

datatype api_error =
    AuthError string int string
  | RequestFailed string
  | ResponseNotJSON string
  | TypeError
  | FetchError

datatype http_method = GET | POST

record request_opts =
  expect :: bool
  headers :: "(string \<times> string) list"
  body :: "string option"

text \<open>The body of a \<open>Response\<close>: the empty object, \<open>null\<close>, or the parsed value.\<close>

datatype 'b response_body = EmptyObject | NullBody | Body 'b

record 'b response =
  resp_ok :: bool
  resp_status :: int
  resp_body :: "'b response_body"
  resp_rawBody :: string

text \<open>The calls of \<open>fetch\<close>: the token endpoint, or an endpoint with its merged headers.\<close>

datatype net_call =
    TokenFetch
  | EndpointFetch http_method string "(string \<times> string) list"

text \<open>
  What one call of \<open>request\<close> reads from outside: the clock at each \<open>new Date()\<close> or
  \<open>Date.now()\<close>, in the order they are read, and the replies of the two fetches
  (\<open>None\<close> is a fetch that rejects).
\<close>

record 'b world =
  now_check :: int
  token_reply :: "response_token fetch_response option"
  now_issued :: int
  now_recheck :: int
  now_send :: int
  reply :: "'b fetch_response option"

definition isAuthSessionValid :: "int \<Rightarrow> eo_mini_api \<Rightarrow> bool" where
  "isAuthSessionValid now api =
     (case authSession api of None \<Rightarrow> True | Some s \<Rightarrow> date_after (expires s) now)"

definition authSessionHeader :: "int \<Rightarrow> eo_mini_api \<Rightarrow> (string \<times> string) list option" where
  "authSessionHeader now api =
     (if \<not> isAuthSessionValid now api then None
      else map_option header (authSession api))"

text \<open>The setter \<open>authSession\<close>, with the two fields of \<open>raw\<close> that it reads.\<close>

definition set_authSession ::
  "int \<Rightarrow> string \<Rightarrow> int \<Rightarrow> response_token \<Rightarrow> eo_mini_api \<Rightarrow> eo_mini_api" where
  "set_authSession now tok exp_in r api =
     api\<lparr>authSession :=
           Some \<lparr>token = tok, expires = new_Date (now + exp_in * 1000),
                 header = [(''Authorization'', ''Bearer '' @ tok)], raw = r\<rparr>\<rparr>"

definition auth :: "'b world \<Rightarrow> eo_mini_api \<Rightarrow> (api_error + unit) \<times> eo_mini_api" where
  "auth w api =
     (case token_reply w of
        None \<Rightarrow> (Inl FetchError, api)
      | Some resp \<Rightarrow>
          if \<not> ok resp then
            (Inl (AuthError ''Response not ok'' (status resp) (rawBody resp)), api)
          else
            (case parsed resp of
               NotJSON \<Rightarrow> (Inl (AuthError ''Response not JSON'' (status resp) (rawBody resp)), api)
             | JSONNull \<Rightarrow> (Inl TypeError, api)
             | JSONValue b \<Rightarrow>
                 (case access_token b of
                    None \<Rightarrow> (Inl (AuthError ''No access token'' (status resp) (rawBody resp)), api)
                  | Some tok \<Rightarrow>
                      if tok = [] then
                        (Inl (AuthError ''No access token'' (status resp) (rawBody resp)), api)
                      else
                        (case expires_in b of
                           None \<Rightarrow>
                             (Inl (AuthError ''No expiration time'' (status resp) (rawBody resp)), api)
                         | Some e \<Rightarrow>
                             if e = 0 then
                               (Inl (AuthError ''No expiration time'' (status resp) (rawBody resp)),
                                api)
                             else
                               let api1 = set_authSession (now_issued w) tok e b api
                               in if authSessionHeader (now_recheck w) api1 = None then
                                    (Inl (AuthError ''No auth session header'' (status resp)
                                            (rawBody resp)), api1)
                                  else (Inr (), api1)))))"

text \<open>
  An object literal as the list of its properties in order. Spreading an object into it
  sets each property in turn: a key already present keeps its place and takes the new
  value, a new key goes to the end. Spreading \<open>undefined\<close> adds nothing.
\<close>

fun set_property :: "string \<Rightarrow> string \<Rightarrow> (string \<times> string) list \<Rightarrow> (string \<times> string) list" where
  "set_property k v [] = [(k, v)]"
| "set_property k v ((k', v') # ps) =
     (if k' = k then (k, v) # ps else (k', v') # set_property k v ps)"

fun spread :: "(string \<times> string) list \<Rightarrow> (string \<times> string) list \<Rightarrow> (string \<times> string) list" where
  "spread obj [] = obj"
| "spread obj ((k, v) # ps) = spread (set_property k v obj) ps"

definition merged_headers ::
  "(string \<times> string) list option \<Rightarrow> (string \<times> string) list \<Rightarrow> (string \<times> string) list" where
  "merged_headers auth_header hs =
     spread
       (spread [(''Accept'', ''application/json''), (''Content-Type'', ''application/json'')]
          (case auth_header of None \<Rightarrow> [] | Some h \<Rightarrow> h))
       hs"

definition request ::
  "'b world \<Rightarrow> http_method \<Rightarrow> string \<Rightarrow> request_opts \<Rightarrow> eo_mini_api
     \<Rightarrow> (api_error + 'b response) \<times> eo_mini_api \<times> net_call list" where
  "request w method endpoint opts api =
     (let (authed, api1, calls) =
            (if authSessionHeader (now_check w) api = None then
               (case auth w api of (r, a) \<Rightarrow> (r, a, [TokenFetch]))
             else (Inr (), api, []))
      in case authed of
           Inl e \<Rightarrow> (Inl e, api1, calls)
         | Inr _ \<Rightarrow>
             let calls2 = calls @ [EndpointFetch method endpoint
                                     (merged_headers (authSessionHeader (now_send w) api1)
                                        (headers opts))]
             in (case reply w of
                   None \<Rightarrow> (Inl FetchError, api1, calls2)
                 | Some resp \<Rightarrow>
                     if \<not> ok resp then (Inl (RequestFailed (rawBody resp)), api1, calls2)
                     else if expect opts then
                       (case parsed resp of
                          NotJSON \<Rightarrow> (Inl (ResponseNotJSON (rawBody resp)), api1, calls2)
                        | JSONNull \<Rightarrow>
                            (Inr \<lparr>resp_ok = ok resp, resp_status = status resp,
                                  resp_body = NullBody, resp_rawBody = rawBody resp\<rparr>,
                             api1, calls2)
                        | JSONValue b \<Rightarrow>
                            (Inr \<lparr>resp_ok = ok resp, resp_status = status resp,
                                  resp_body = Body b, resp_rawBody = rawBody resp\<rparr>,
                             api1, calls2))
                     else
                       (Inr \<lparr>resp_ok = ok resp, resp_status = status resp,
                             resp_body = EmptyObject, resp_rawBody = rawBody resp\<rparr>,
                        api1, calls2)))"

definition net_calls :: "'a \<times> 'b \<times> net_call list \<Rightarrow> net_call list" where
  "net_calls r = snd (snd r)"

definition auth_calls :: "net_call list \<Rightarrow> nat" where
  "auth_calls calls = length (filter (\<lambda>c. c = TokenFetch) calls)"

text \<open>A token reply, a clock and two cached sessions for the examples.\<close>

definition token_ok :: "response_token fetch_response" where
  "token_ok = \<lparr>ok = True, status = 200, rawBody = ''{..}'',
               parsed = JSONValue \<lparr>access_token = Some ''tok2'', expires_in = Some 3600\<rparr>\<rparr>"

definition world1 :: "unit world" where
  "world1 = \<lparr>now_check = 5000, token_reply = Some token_ok, now_issued = 5001,
              now_recheck = 5002, now_send = 5003,
              reply = Some \<lparr>ok = True, status = 200, rawBody = [], parsed = NotJSON\<rparr>\<rparr>"

definition api_with :: "int \<Rightarrow> eo_mini_api" where
  "api_with e = \<lparr>authSession = Some \<lparr>token = ''tok1'', expires = Date e,
                   header = [(''Authorization'', ''Bearer tok1'')],
                   raw = \<lparr>access_token = Some ''tok1'', expires_in = Some 3600\<rparr>\<rparr>\<rparr>"

definition opts_alive :: request_opts where
  "opts_alive = \<lparr>expect = False, headers = [], body = None\<rparr>"

section \<open>Properties of the accessory\<close>

lemmas hap_defs = LockCurrentState_UNSECURED_def LockCurrentState_SECURED_def
  LockCurrentState_UNKNOWN_def LockTargetState_UNSECURED_def LockTargetState_SECURED_def
  CONTACT_DETECTED_def CONTACT_NOT_DETECTED_def

lemma states_emit [simp]: "states (emit e acc) = states acc"
  by (simp add: emit_def)

lemma trace_emit [simp]: "trace (emit e acc) = trace acc @ [e]"
  by (simp add: emit_def)

lemma get_set_state [simp]: "get_state key (set_state key v st) = v"
  by (cases key) simp_all

lemma states_updateState:
  "states (updateState svc key v skip forced acc) = set_state key v (states acc)"
  by (cases key) (auto simp: updateState_def Let_def)

lemma trace_updateState:
  "trace (updateState svc key v skip forced acc) =
     trace acc @ (if (v = get_state key (states acc) \<and> \<not> forced) \<or> skip then []
                  else [UpdateCharacteristic svc key v])"
  by (simp add: updateState_def Let_def)

lemma emitted_append: "trace after = trace before @ xs \<Longrightarrow> emitted before after = xs"
  by (simp add: emitted_def)

lemma device_updateState [simp]: "device (updateState svc key v skip forced acc) = device acc"
  by (simp add: updateState_def Let_def emit_def)

lemma session_updateState [simp]: "session (updateState svc key v skip forced acc) = session acc"
  by (simp add: updateState_def Let_def emit_def)

lemma sessionAlive_updateState [simp]:
  "sessionAlive (updateState svc key v skip forced acc) = sessionAlive acc"
  by (simp add: updateState_def Let_def emit_def)

lemma pending_updateState [simp]: "pending (updateState svc key v skip forced acc) = pending acc"
  by (simp add: updateState_def Let_def emit_def)

lemma queue_updateState [simp]: "queue (updateState svc key v skip forced acc) = queue acc"
  by (simp add: updateState_def Let_def emit_def)

lemma pending_emit [simp]: "pending (emit e acc) = pending acc"
  by (simp add: emit_def)

lemma queue_emit [simp]: "queue (emit e acc) = queue acc"
  by (simp add: emit_def)

lemma device_emit [simp]: "device (emit e acc) = device acc"
  by (simp add: emit_def)

lemma states_start_task [simp]: "states (start_task t acc) = states acc"
  by (cases t) simp_all

lemma states_tryToStartAnother [simp]: "states (tryToStartAnother acc) = states acc"
  by (simp add: tryToStartAnother_def split: option.splits list.splits)

lemma states_queue_add [simp]: "states (queue_add t acc) = states acc"
  by (simp add: queue_add_def)

lemma states_task_settled [simp]: "states (task_settled t b acc) = states acc"
  by (simp add: task_settled_def)

lemma trace_start_task:
  "trace (start_task t acc) = trace acc @ (if t = CheckSessionTask then [ApiCall Session] else [])"
  by (cases t) simp_all

lemma trace_queue_add:
  "queue_idle_empty acc \<Longrightarrow>
   trace (queue_add t acc) =
     trace acc @ (if pending acc = None \<and> t = CheckSessionTask then [ApiCall Session] else [])"
  by (cases "pending acc")
     (simp_all add: queue_add_def tryToStartAnother_def queue_idle_empty_def trace_start_task)

lemma queue_idle_empty_updateState [simp]:
  "queue_idle_empty (updateState svc key v skip forced acc) = queue_idle_empty acc"
  by (simp add: updateState_def Let_def emit_def queue_idle_empty_def)

lemma queue_idle_empty_emit [simp]: "queue_idle_empty (emit e acc) = queue_idle_empty acc"
  by (simp add: emit_def queue_idle_empty_def)

lemmas example_defs = acc0_def initial_accessory_def mini_A1_def mini_A1_disabled_def

subsection \<open>Change suppression in updateState\<close>



subsection \<open>The reconciliation pass\<close>

lemma LockCurrentState_computeAll:
  "LockCurrentState (states (computeAll acc)) = computeLockCurrentState acc"
  by (simp add: computeAll_def Let_def states_updateState)

lemma device_computeAll: "device (computeAll acc) = device acc"
  by (simp add: computeAll_def Let_def)

text \<open>
  Claim C9. After \<open>computeAll\<close>, whatever the accessory was before, the stored
  LockCurrentState is SECURED when the device snapshot has \<open>isDisabled = 1\<close> and
  UNSECURED otherwise; so it is SECURED if and only if \<open>isDisabled = 1\<close>. The pass
  leaves the snapshot as it is.
\<close>

theorem computeAll_lock_current:
  "LockCurrentState (states (computeAll acc)) =
     (if isDisabled (device acc) = 1 then LockCurrentState_SECURED else LockCurrentState_UNSECURED)
   \<and> (LockCurrentState (states (computeAll acc)) = LockCurrentState_SECURED
        \<longleftrightarrow> isDisabled (device acc) = 1)
   \<and> device (computeAll acc) = device acc"
  by (simp add: LockCurrentState_computeAll computeLockCurrentState_def hap_defs device_computeAll)

theorem computeAll_lock_current_witness:
  "LockCurrentState (states (computeAll (acc0\<lparr>device := mini_A1_disabled\<rparr>)))
     = LockCurrentState_SECURED
   \<and> LockCurrentState (states (computeAll acc0)) = LockCurrentState_UNSECURED"
  using computeAll_lock_current [of "acc0\<lparr>device := mini_A1_disabled\<rparr>"]
    computeAll_lock_current [of acc0]
  by (simp add: example_defs)

lemma trace_computeAll:
  "trace (computeAll acc) =
     trace acc
     @ (if computeLockCurrentState acc = LockCurrentState (states acc) then []
        else [UpdateCharacteristic lock Key_LockCurrentState (computeLockCurrentState acc)])
     @ (if Bool (computeOutletOn acc) = On (states acc) then []
        else [UpdateCharacteristic outlet Key_On (Bool (computeOutletOn acc))])
     @ (if computeContactSensorState acc = ContactSensorState (states acc) then []
        else [UpdateCharacteristic contactSensor Key_ContactSensorState
                (computeContactSensorState acc)])"
  by (simp add: computeAll_def Let_def trace_updateState states_updateState
        computeLockCurrentState_def computeOutletOn_def computeContactSensorState_def)

lemma LockTargetState_computeAll:
  "LockTargetState (states (computeAll acc)) = computeLockCurrentState acc"
  by (simp add: computeAll_def Let_def states_updateState computeLockCurrentState_def)

text \<open>
  Claim C3, as the code has it. \<open>computeAll\<close> passes \<open>true\<close> as the fourth argument of
  \<open>updateState\<close>, which is \<open>skipCharacteristicUpdate\<close>; \<open>forced\<close> keeps its default, false.
  With the charger disabled and UNSECURED stored as target, the pass changes the stored
  target and notifies the host of LockCurrentState only; and when the computed value is
  the stored target, the pass sends nothing at all.
\<close>

theorem computeAll_target_counterexample:
  "LockTargetState (states (acc0\<lparr>device := mini_A1_disabled\<rparr>)) = LockTargetState_UNSECURED
   \<and> computeLockCurrentState (acc0\<lparr>device := mini_A1_disabled\<rparr>) = LockTargetState_SECURED
   \<and> emitted (acc0\<lparr>device := mini_A1_disabled\<rparr>) (computeAll (acc0\<lparr>device := mini_A1_disabled\<rparr>))
       = [UpdateCharacteristic lock Key_LockCurrentState LockCurrentState_SECURED]
   \<and> computeLockCurrentState acc0 = LockTargetState (states acc0)
   \<and> emitted acc0 (computeAll acc0) = []"
  by (simp add: emitted_def trace_computeAll example_defs hap_defs computeLockCurrentState_def
       computeOutletOn_def computeContactSensorState_def)

text \<open>
  Claim C3, amended. After every pass the stored LockTargetState is the computed lock
  state, equal to the stored LockCurrentState, whatever was stored before; and the pass
  sends no notification of LockTargetState to any service.
\<close>

theorem computeAll_target_mirrors:
  "LockTargetState (states (computeAll acc)) = computeLockCurrentState acc
   \<and> LockTargetState (states (computeAll acc)) = LockCurrentState (states (computeAll acc))
   \<and> UpdateCharacteristic svc Key_LockTargetState v \<notin> set (emitted acc (computeAll acc))"
proof (intro conjI)
  show "LockTargetState (states (computeAll acc)) = computeLockCurrentState acc"
    by (rule LockTargetState_computeAll)
  show "LockTargetState (states (computeAll acc)) = LockCurrentState (states (computeAll acc))"
    by (simp add: LockTargetState_computeAll LockCurrentState_computeAll)
  show "UpdateCharacteristic svc Key_LockTargetState v \<notin> set (emitted acc (computeAll acc))"
    by (simp add: emitted_def trace_computeAll)
qed

theorem computeAll_target_mirrors_witness:
  "LockTargetState (states (computeAll (acc0\<lparr>device := mini_A1_disabled\<rparr>))) = Num 1
   \<and> UpdateCharacteristic lock Key_LockTargetState (Num 1)
        \<notin> set (emitted (acc0\<lparr>device := mini_A1_disabled\<rparr>)
                   (computeAll (acc0\<lparr>device := mini_A1_disabled\<rparr>)))"
  using computeAll_target_mirrors [of "acc0\<lparr>device := mini_A1_disabled\<rparr>" lock "Num 1"]
  by (simp add: example_defs hap_defs computeLockCurrentState_def)

subsection \<open>The lock handler: guard, optimistic update and command\<close>

lemma states_doEnableOrDisable [simp]: "states (doEnableOrDisable a acc) = states acc"
  by (simp add: doEnableOrDisable_def)

lemma queue_idle_empty_doEnableOrDisable [simp]:
  "queue_idle_empty (doEnableOrDisable a acc) = queue_idle_empty acc"
  by (simp add: doEnableOrDisable_def)

lemma pending_doEnableOrDisable [simp]: "pending (doEnableOrDisable a acc) = pending acc"
  by (simp add: doEnableOrDisable_def)

lemma queue_doEnableOrDisable [simp]: "queue (doEnableOrDisable a acc) = queue acc"
  by (simp add: doEnableOrDisable_def)

lemma trace_doEnableOrDisable:
  "trace (doEnableOrDisable a acc) =
     trace acc @ [ApiCall (case a of Enable \<Rightarrow> MiniEnable (address (device acc))
                                   | Disable \<Rightarrow> MiniDisable (address (device acc)))]"
  by (simp add: doEnableOrDisable_def)

lemma states_setLockTargetState:
  "states (setLockTargetState val acc) =
     (if val = LockTargetState (states acc) \<or> val = LockCurrentState (states acc) then states acc
      else (states acc)\<lparr>LockTargetState := val\<rparr>)"
  by (simp add: setLockTargetState_def Let_def states_updateState)

lemma trace_setLockTargetState:
  "queue_idle_empty acc \<Longrightarrow>
   trace (setLockTargetState val acc) =
     trace acc @
     (if val = LockTargetState (states acc) \<or> val = LockCurrentState (states acc) then []
      else UpdateCharacteristic lock Key_LockTargetState val #
           (if val = LockTargetState_SECURED then [ApiCall (MiniDisable (address (device acc)))]
            else if val = LockTargetState_UNSECURED then [ApiCall (MiniEnable (address (device acc)))]
            else [LogError]))"
  by (simp add: setLockTargetState_def Let_def trace_queue_add trace_updateState
        trace_doEnableOrDisable)

text \<open>
  Claim C2, amended. \<open>setLockTargetState\<close> returns the accessory as it was exactly when
  the value is the stored LockTargetState or the stored LockCurrentState (either one is
  enough). In every other case the stored target becomes the value at once and the lock
  service is notified; then \<open>miniDisable\<close> is called for SECURED, \<open>miniEnable\<close> for
  UNSECURED, and for any other value an error is logged and no command is issued.
\<close>

theorem setLockTargetState_noop_iff:
  assumes "queue_idle_empty acc"
  shows "(setLockTargetState val acc = acc
            \<longleftrightarrow> (val = LockTargetState (states acc) \<or> val = LockCurrentState (states acc)))
   \<and> (val \<noteq> LockTargetState (states acc) \<and> val \<noteq> LockCurrentState (states acc) \<longrightarrow>
        LockTargetState (states (setLockTargetState val acc)) = val
        \<and> emitted acc (setLockTargetState val acc) =
            UpdateCharacteristic lock Key_LockTargetState val #
            (if val = LockTargetState_SECURED then [ApiCall (MiniDisable (address (device acc)))]
             else if val = LockTargetState_UNSECURED then [ApiCall (MiniEnable (address (device acc)))]
             else [LogError]))"
proof (intro conjI impI iffI)
  assume "setLockTargetState val acc = acc"
  then have "states (setLockTargetState val acc) = states acc" by simp
  then have "LockTargetState (states (setLockTargetState val acc)) = LockTargetState (states acc)"
    by simp
  then show "val = LockTargetState (states acc) \<or> val = LockCurrentState (states acc)"
    by (simp add: states_setLockTargetState split: if_splits)
next
  assume "val = LockTargetState (states acc) \<or> val = LockCurrentState (states acc)"
  then show "setLockTargetState val acc = acc"
    by (simp add: setLockTargetState_def)
next
  assume "val \<noteq> LockTargetState (states acc) \<and> val \<noteq> LockCurrentState (states acc)"
  then show "LockTargetState (states (setLockTargetState val acc)) = val"
    by (simp add: states_setLockTargetState)
next
  assume "val \<noteq> LockTargetState (states acc) \<and> val \<noteq> LockCurrentState (states acc)"
  then show "emitted acc (setLockTargetState val acc) =
            UpdateCharacteristic lock Key_LockTargetState val #
            (if val = LockTargetState_SECURED then [ApiCall (MiniDisable (address (device acc)))]
             else if val = LockTargetState_UNSECURED then [ApiCall (MiniEnable (address (device acc)))]
             else [LogError])"
    using assms by (simp add: emitted_def trace_setLockTargetState)
qed

lemma queue_idle_empty_acc0: "queue_idle_empty acc0"
  by (simp add: queue_idle_empty_def example_defs)

theorem setLockTargetState_noop_iff_witness:
  "queue_idle_empty acc0
   \<and> setLockTargetState LockTargetState_UNSECURED acc0 = acc0
   \<and> setLockTargetState LockTargetState_SECURED acc0 \<noteq> acc0
   \<and> emitted acc0 (setLockTargetState LockTargetState_SECURED acc0) =
       [UpdateCharacteristic lock Key_LockTargetState LockTargetState_SECURED,
        ApiCall (MiniDisable ''A1'')]"
  using setLockTargetState_noop_iff [OF queue_idle_empty_acc0, of LockTargetState_UNSECURED]
    setLockTargetState_noop_iff [OF queue_idle_empty_acc0, of LockTargetState_SECURED]
    queue_idle_empty_acc0
  by (simp add: example_defs hap_defs)

text \<open>
  Claim C2, as the code has it. After \<open>setLockTargetState(SECURED)\<close> on the fresh
  accessory the target is SECURED and the current state still UNSECURED; a call with
  UNSECURED then differs from the target, so it does not equal both, and yet it is
  ignored: the guard is a disjunction.
\<close>

theorem setLockTargetState_noop_counterexample:
  "LockTargetState_UNSECURED \<noteq> LockTargetState (states (setLockTargetState LockTargetState_SECURED acc0))
   \<and> LockTargetState_UNSECURED = LockCurrentState (states (setLockTargetState LockTargetState_SECURED acc0))
   \<and> setLockTargetState LockTargetState_UNSECURED (setLockTargetState LockTargetState_SECURED acc0)
       = setLockTargetState LockTargetState_SECURED acc0"
  by (simp add: setLockTargetState_def updateState_def Let_def queue_add_def
       tryToStartAnother_def doEnableOrDisable_def emit_def example_defs hap_defs)



subsection \<open>The completion task of the lock handler\<close>

lemmas run_defs = new_accessory_def checkSession_def queue_add_def tryToStartAnother_def
  setLockTargetState_def setOutletOn_def updateState_def doEnableOrDisable_def
  doPauseOrUnpause_def emit_def Let_def session_settled_def sessionAlive_settled_def
  promise_settled_def task_settled_def setValue_On_def outlet_timeout_def
  unhandled_rejection_def step_def

lemma pending_start_task:
  "pending (start_task t acc) =
     Some (case t of CheckSessionTask \<Rightarrow> AwaitSession
                   | LockTask v \<Rightarrow> AwaitLockPromise v
                   | OutletTask \<Rightarrow> AwaitOutletPromise)"
  by (cases t) simp_all

lemma queue_start_task [simp]: "queue (start_task t acc) = queue acc"
  by (cases t) simp_all

lemma queue_add_placed:
  "pending (queue_add t acc) \<noteq> None
   \<and> (pending acc = None \<and> queue acc = [] \<longrightarrow>
        pending (queue_add t acc) = pending (start_task t acc) \<and> queue (queue_add t acc) = [])
   \<and> (pending acc \<noteq> None \<longrightarrow>
        pending (queue_add t acc) = pending acc \<and> queue (queue_add t acc) = queue acc @ [t])"
  by (cases "pending acc"; cases "queue acc")
     (simp_all add: queue_add_def tryToStartAnother_def pending_start_task)

lemma states_promise_settled_lock:
  "pending acc = Some (AwaitLockPromise v) \<Longrightarrow>
   states (promise_settled TaskInFlight r acc) =
     (states acc)\<lparr>LockCurrentState := (case r of Fulfilled _ \<Rightarrow> v | Rejected \<Rightarrow> LockCurrentState_UNKNOWN)\<rparr>"
  by (cases r) (simp_all add: promise_settled_def states_updateState)

text \<open>
  Claim C8, as the code has it. (a) With target SECURED and current UNSECURED, the valid
  value UNSECURED differs from the target, yet the call is ignored: no task, no request.
  (b) After a failed command the current state is UNKNOWN; when the next command fails
  too, the task stores UNKNOWN again, which is the prior value. (c) While the session
  check is in flight the completion task waits in the queue; when the request fails
  then, nothing has awaited the promise: the rejection is unhandled, the process ends,
  and LockCurrentState is still the prior value.
\<close>

theorem lock_completion_counterexample:
  "LockTargetState_UNSECURED
     \<noteq> LockTargetState (states (setLockTargetState LockTargetState_SECURED acc0))
   \<and> setLockTargetState LockTargetState_UNSECURED
        (setLockTargetState LockTargetState_SECURED acc0)
       = setLockTargetState LockTargetState_SECURED acc0
   \<and> LockCurrentState (states (promise_settled TaskInFlight Rejected
        (setLockTargetState LockTargetState_SECURED acc0))) = LockCurrentState_UNKNOWN
   \<and> pending (setLockTargetState LockTargetState_UNSECURED
        (promise_settled TaskInFlight Rejected
           (setLockTargetState LockTargetState_SECURED acc0)))
       = Some (AwaitLockPromise LockTargetState_UNSECURED)
   \<and> LockCurrentState (states (promise_settled TaskInFlight Rejected
        (setLockTargetState LockTargetState_UNSECURED
           (promise_settled TaskInFlight Rejected
              (setLockTargetState LockTargetState_SECURED acc0)))))
       = LockCurrentState (states (promise_settled TaskInFlight Rejected
           (setLockTargetState LockTargetState_SECURED acc0)))
   \<and> queue (setLockTargetState LockTargetState_SECURED (new_accessory mini_A1 0))
       = [LockTask LockTargetState_SECURED]
   \<and> exited (promise_settled (TaskWaiting 0) Rejected
        (setLockTargetState LockTargetState_SECURED (new_accessory mini_A1 0)))
   \<and> trace (promise_settled (TaskWaiting 0) Rejected
        (setLockTargetState LockTargetState_SECURED (new_accessory mini_A1 0)))
       = [ApiCall Session,
          UpdateCharacteristic lock Key_LockTargetState LockTargetState_SECURED,
          ApiCall (MiniDisable ''A1''),
          UnhandledRejection]
   \<and> LockCurrentState (states (promise_settled (TaskWaiting 0) Rejected
        (setLockTargetState LockTargetState_SECURED (new_accessory mini_A1 0))))
       = LockCurrentState_UNSECURED"
  by (simp add: run_defs example_defs hap_defs)

text \<open>
  Claim C8, amended. For a value that is SECURED or UNSECURED and differs from both the
  stored target and the stored current state, \<open>setLockTargetState\<close> admits the completion
  task: it is in flight at once when the queue was idle, and last in the queue
  otherwise. Whatever the accessory is when that task, in flight at its \<open>await\<close>, resumes,
  it leaves LockCurrentState equal to the value when the promise is fulfilled, and
  equal to UNKNOWN when it is rejected, whatever the state was before (UNKNOWN
  included); UNKNOWN is neither of the two values.
\<close>

theorem lock_completion_task:
  assumes valid: "val = LockTargetState_SECURED \<or> val = LockTargetState_UNSECURED"
    and new: "val \<noteq> LockTargetState (states acc)" "val \<noteq> LockCurrentState (states acc)"
  shows "(pending acc = None \<and> queue acc = [] \<longrightarrow>
            pending (setLockTargetState val acc) = Some (AwaitLockPromise val))
   \<and> (pending acc \<noteq> None \<longrightarrow>
            queue (setLockTargetState val acc) = queue acc @ [LockTask val])
   \<and> (pending acc' = Some (AwaitLockPromise val) \<longrightarrow>
          LockCurrentState (states (promise_settled TaskInFlight (Fulfilled ()) acc')) = val
        \<and> LockCurrentState (states (promise_settled TaskInFlight Rejected acc'))
            = LockCurrentState_UNKNOWN)
   \<and> LockCurrentState_UNKNOWN \<noteq> val"
proof (intro conjI impI)
  assume idle: "pending acc = None \<and> queue acc = []"
  from valid new idle show "pending (setLockTargetState val acc) = Some (AwaitLockPromise val)"
    using queue_add_placed [of "LockTask val"
        "doEnableOrDisable Disable (updateState lock Key_LockTargetState val False False acc)"]
      queue_add_placed [of "LockTask val"
        "doEnableOrDisable Enable (updateState lock Key_LockTargetState val False False acc)"]
    by (auto simp: setLockTargetState_def Let_def pending_start_task)
next
  assume busy: "pending acc \<noteq> None"
  from valid new busy show "queue (setLockTargetState val acc) = queue acc @ [LockTask val]"
    using queue_add_placed [of "LockTask val"
        "doEnableOrDisable Disable (updateState lock Key_LockTargetState val False False acc)"]
      queue_add_placed [of "LockTask val"
        "doEnableOrDisable Enable (updateState lock Key_LockTargetState val False False acc)"]
    by (auto simp: setLockTargetState_def Let_def pending_start_task)
next
  assume "pending acc' = Some (AwaitLockPromise val)"
  then show "LockCurrentState (states (promise_settled TaskInFlight (Fulfilled ()) acc')) = val"
    by (simp add: states_promise_settled_lock)
next
  assume "pending acc' = Some (AwaitLockPromise val)"
  then show "LockCurrentState (states (promise_settled TaskInFlight Rejected acc'))
               = LockCurrentState_UNKNOWN"
    by (simp add: states_promise_settled_lock)
next
  from valid show "LockCurrentState_UNKNOWN \<noteq> val"
    by (auto simp: hap_defs)
qed

theorem lock_completion_task_witness:
  "pending (setLockTargetState LockTargetState_SECURED acc0) = Some (AwaitLockPromise LockTargetState_SECURED)
   \<and> LockCurrentState (states (promise_settled TaskInFlight (Fulfilled ())
        (setLockTargetState LockTargetState_SECURED acc0))) = LockCurrentState_SECURED
   \<and> LockCurrentState (states (promise_settled TaskInFlight Rejected
        (setLockTargetState LockTargetState_SECURED acc0))) = LockCurrentState_UNKNOWN"
proof -
  have h1: "LockTargetState_SECURED = LockTargetState_SECURED \<or> LockTargetState_SECURED = LockTargetState_UNSECURED"
    by simp
  have h2: "LockTargetState_SECURED \<noteq> LockTargetState (states acc0)"
    and h3: "LockTargetState_SECURED \<noteq> LockCurrentState (states acc0)"
    by (simp_all add: example_defs hap_defs)
  have idle: "pending acc0 = None \<and> queue acc0 = []"
    by (simp add: example_defs)
  have same: "LockCurrentState_SECURED = LockTargetState_SECURED"
    by (simp add: hap_defs)
  from lock_completion_task [OF h1 h2 h3, of "setLockTargetState LockTargetState_SECURED acc0"] idle same
  show ?thesis by metis
qed

subsection \<open>Where the handlers call the API\<close>

text \<open>
  Claim C1, evaluated on the code. The constructor's session check is in flight, waiting
  for \<open>client.session()\<close>. A call of \<open>setLockTargetState(SECURED)\<close> then invokes
  \<open>miniDisable\<close> at once, while that task is still waiting and the lock task is only
  waiting in the queue; \<open>sessionAlive\<close> of the earlier check is called after it. The same
  holds for \<open>setOutletOn(true)\<close> and \<open>sessionUnpause\<close>. So the calls of a user command
  are made outside the queued task, between the calls of a task submitted before it.
\<close>

theorem command_call_outside_queue:
  "pending (new_accessory mini_A1 0) = Some AwaitSession
   \<and> trace (new_accessory mini_A1 0) = [ApiCall Session]
   \<and> trace (setLockTargetState LockTargetState_SECURED (new_accessory mini_A1 0)) =
        [ApiCall Session,
         UpdateCharacteristic lock Key_LockTargetState LockTargetState_SECURED,
         ApiCall (MiniDisable ''A1'')]
   \<and> pending (setLockTargetState LockTargetState_SECURED (new_accessory mini_A1 0)) = Some AwaitSession
   \<and> queue (setLockTargetState LockTargetState_SECURED (new_accessory mini_A1 0))
        = [LockTask LockTargetState_SECURED]
   \<and> trace (session_settled (Fulfilled None)
               (setLockTargetState LockTargetState_SECURED (new_accessory mini_A1 0))) =
        [ApiCall Session,
         UpdateCharacteristic lock Key_LockTargetState LockTargetState_SECURED,
         ApiCall (MiniDisable ''A1''),
         ApiCall SessionAlive]
   \<and> trace (setOutletOn (Bool True) (checkSession (acc0\<lparr>sessionAlive := True\<rparr>))) =
        [ApiCall Session,
         UpdateCharacteristic outlet Key_On (Bool True),
         ApiCall SessionUnpause]
   \<and> pending (setOutletOn (Bool True) (checkSession (acc0\<lparr>sessionAlive := True\<rparr>)))
        = Some AwaitSession
   \<and> queue (setOutletOn (Bool True) (checkSession (acc0\<lparr>sessionAlive := True\<rparr>)))
        = [OutletTask]"
  by (simp add: run_defs example_defs hap_defs)

subsection \<open>Failures inside queued tasks\<close>

lemma trace_task_settled:
  "trace (task_settled t b acc) =
     trace acc @ TaskSettled t b #
       (case queue acc of [] \<Rightarrow> []
           | t' # _ \<Rightarrow> if t' = CheckSessionTask then [ApiCall Session] else [])"
  by (cases "queue acc")
     (simp_all add: task_settled_def tryToStartAnother_def trace_start_task)

lemma next_task_settled:
  "queue acc = t' # ts \<Longrightarrow>
   queue (task_settled t b acc) = ts
   \<and> pending (task_settled t b acc) =
       Some (case t' of CheckSessionTask \<Rightarrow> AwaitSession
                      | LockTask v \<Rightarrow> AwaitLockPromise v
                      | OutletTask \<Rightarrow> AwaitOutletPromise)"
  by (simp add: task_settled_def tryToStartAnother_def pending_start_task)

lemma exited_emit [simp]: "exited (emit e acc) = exited acc"
  by (simp add: emit_def)

lemma exited_updateState [simp]: "exited (updateState svc key v skip forced acc) = exited acc"
  by (simp add: updateState_def Let_def)

lemma exited_start_task [simp]: "exited (start_task t acc) = exited acc"
  by (cases t) simp_all

lemma exited_task_settled [simp]: "exited (task_settled t b acc) = exited acc"
  by (simp add: task_settled_def tryToStartAnother_def split: option.splits list.splits)

text \<open>
  Claim C4, as the code has it. (a) The task of \<open>checkSession\<close> has no \<open>try\<close>: when
  \<open>client.session()\<close> rejects, the task rejects, nothing takes the rejection and the
  process ends. (b) The task of \<open>setOutletOn\<close>, in flight, catches the rejection, logs
  it and resolves, but leaves the state as it was, with the optimistic On value.
  (c) While the session check is in flight the outlet task waits in the queue; when
  its command fails then, the task has not reached its \<open>try\<close>: the rejection is
  unhandled, the process ends, and neither the session check nor the outlet task goes
  on.
\<close>

theorem queued_tasks_counterexample:
  "trace (session_settled Rejected (new_accessory mini_A1 0))
     = [ApiCall Session, TaskSettled CheckSessionTask False, UnhandledRejection]
   \<and> exited (session_settled Rejected (new_accessory mini_A1 0))
   \<and> pending (setOutletOn (Bool True) (acc0\<lparr>sessionAlive := True\<rparr>)) = Some AwaitOutletPromise
   \<and> On (states (setOutletOn (Bool True) (acc0\<lparr>sessionAlive := True\<rparr>))) = Bool True
   \<and> states (promise_settled TaskInFlight Rejected
               (setOutletOn (Bool True) (acc0\<lparr>sessionAlive := True\<rparr>)))
       = states (setOutletOn (Bool True) (acc0\<lparr>sessionAlive := True\<rparr>))
   \<and> trace (promise_settled TaskInFlight Rejected
               (setOutletOn (Bool True) (acc0\<lparr>sessionAlive := True\<rparr>)))
       = [UpdateCharacteristic outlet Key_On (Bool True), ApiCall SessionUnpause,
          LogError, TaskSettled OutletTask True]
   \<and> queue (setOutletOn (Bool True) (checkSession (acc0\<lparr>sessionAlive := True\<rparr>)))
       = [OutletTask]
   \<and> trace (promise_settled (TaskWaiting 0) Rejected
               (setOutletOn (Bool True) (checkSession (acc0\<lparr>sessionAlive := True\<rparr>))))
       = [ApiCall Session, UpdateCharacteristic outlet Key_On (Bool True),
          ApiCall SessionUnpause, UnhandledRejection]
   \<and> exited (promise_settled (TaskWaiting 0) Rejected
               (setOutletOn (Bool True) (checkSession (acc0\<lparr>sessionAlive := True\<rparr>))))
   \<and> run [SessionSettled (Fulfilled None), SessionAliveSettled True,
           PromiseSettled TaskInFlight (Fulfilled ())]
          (promise_settled (TaskWaiting 0) Rejected
             (setOutletOn (Bool True) (checkSession (acc0\<lparr>sessionAlive := True\<rparr>))))
       = promise_settled (TaskWaiting 0) Rejected
           (setOutletOn (Bool True) (checkSession (acc0\<lparr>sessionAlive := True\<rparr>)))"
  by (simp add: run_defs example_defs hap_defs)

text \<open>
  Claim C4, amended. A task queued by one of the two handlers that is in flight, waiting
  at its \<open>await\<close>, when its command fails, catches the failure and resolves: the lock
  task logs the error and stores UNKNOWN as LockCurrentState (notifying the host unless
  UNKNOWN was stored already); the outlet task logs the error and leaves the state
  unchanged. The process goes on, and when such a task settles, fulfilled or failed,
  the next waiting task is taken off the queue and started.
\<close>

theorem command_tasks_contain_failure:
  "(pending acc = Some (AwaitLockPromise v) \<longrightarrow>
      emitted acc (promise_settled TaskInFlight Rejected acc) =
        LogError #
        (if LockCurrentState (states acc) = LockCurrentState_UNKNOWN then []
         else [UpdateCharacteristic lock Key_LockCurrentState LockCurrentState_UNKNOWN])
        @ TaskSettled (LockTask v) True #
          (case queue acc of [] \<Rightarrow> []
           | t' # _ \<Rightarrow> if t' = CheckSessionTask then [ApiCall Session] else [])
      \<and> LockCurrentState (states (promise_settled TaskInFlight Rejected acc))
          = LockCurrentState_UNKNOWN)
   \<and> (pending acc = Some AwaitOutletPromise \<longrightarrow>
      emitted acc (promise_settled TaskInFlight Rejected acc) =
        LogError # TaskSettled OutletTask True #
          (case queue acc of [] \<Rightarrow> []
           | t' # _ \<Rightarrow> if t' = CheckSessionTask then [ApiCall Session] else [])
      \<and> states (promise_settled TaskInFlight Rejected acc) = states acc)
   \<and> (pending acc = Some (AwaitLockPromise v) \<or> pending acc = Some AwaitOutletPromise \<longrightarrow>
      exited (promise_settled TaskInFlight r acc) = exited acc)
   \<and> ((pending acc = Some (AwaitLockPromise v) \<or> pending acc = Some AwaitOutletPromise)
        \<and> queue acc = t # ts \<longrightarrow>
      queue (promise_settled TaskInFlight r acc) = ts
      \<and> pending (promise_settled TaskInFlight r acc) =
          Some (case t of CheckSessionTask \<Rightarrow> AwaitSession
                        | LockTask w \<Rightarrow> AwaitLockPromise w
                        | OutletTask \<Rightarrow> AwaitOutletPromise))"
proof (intro conjI impI)
  assume p: "pending acc = Some (AwaitLockPromise v)"
  show "emitted acc (promise_settled TaskInFlight Rejected acc) =
        LogError #
        (if LockCurrentState (states acc) = LockCurrentState_UNKNOWN then []
         else [UpdateCharacteristic lock Key_LockCurrentState LockCurrentState_UNKNOWN])
        @ TaskSettled (LockTask v) True #
          (case queue acc of [] \<Rightarrow> []
           | t' # _ \<Rightarrow> if t' = CheckSessionTask then [ApiCall Session] else [])"
    by (rule emitted_append)
       (simp add: p promise_settled_def trace_task_settled trace_updateState)
  show "LockCurrentState (states (promise_settled TaskInFlight Rejected acc))
          = LockCurrentState_UNKNOWN"
    by (simp add: p states_promise_settled_lock)
next
  assume p: "pending acc = Some AwaitOutletPromise"
  show "emitted acc (promise_settled TaskInFlight Rejected acc) =
        LogError # TaskSettled OutletTask True #
          (case queue acc of [] \<Rightarrow> []
           | t' # _ \<Rightarrow> if t' = CheckSessionTask then [ApiCall Session] else [])"
    by (rule emitted_append) (simp add: p promise_settled_def trace_task_settled)
  show "states (promise_settled TaskInFlight Rejected acc) = states acc"
    by (simp add: p promise_settled_def)
next
  assume "pending acc = Some (AwaitLockPromise v) \<or> pending acc = Some AwaitOutletPromise"
  then show "exited (promise_settled TaskInFlight r acc) = exited acc"
    by (cases r) (auto simp: promise_settled_def)
next
  assume a: "(pending acc = Some (AwaitLockPromise v) \<or> pending acc = Some AwaitOutletPromise)
        \<and> queue acc = t # ts"
  then have "queue (promise_settled TaskInFlight r acc) = ts
      \<and> pending (promise_settled TaskInFlight r acc) =
          Some (case t of CheckSessionTask \<Rightarrow> AwaitSession
                        | LockTask w \<Rightarrow> AwaitLockPromise w
                        | OutletTask \<Rightarrow> AwaitOutletPromise)"
    by (cases r) (auto simp: promise_settled_def next_task_settled)
  then show "queue (promise_settled TaskInFlight r acc) = ts"
    and "pending (promise_settled TaskInFlight r acc) =
          Some (case t of CheckSessionTask \<Rightarrow> AwaitSession
                        | LockTask w \<Rightarrow> AwaitLockPromise w
                        | OutletTask \<Rightarrow> AwaitOutletPromise)"
    by simp_all
qed

theorem command_tasks_contain_failure_witness:
  "LockCurrentState (states (promise_settled TaskInFlight Rejected
        (setLockTargetState LockTargetState_SECURED acc0))) = LockCurrentState_UNKNOWN
   \<and> states (promise_settled TaskInFlight Rejected
               (setOutletOn (Bool True) (acc0\<lparr>sessionAlive := True\<rparr>)))
       = states (setOutletOn (Bool True) (acc0\<lparr>sessionAlive := True\<rparr>))
   \<and> \<not> exited (promise_settled TaskInFlight Rejected
               (setOutletOn (Bool True) (acc0\<lparr>sessionAlive := True\<rparr>)))
   \<and> pending (promise_settled TaskInFlight Rejected
        (setOutletOn (Bool True)
           (setLockTargetState LockTargetState_SECURED (acc0\<lparr>sessionAlive := True\<rparr>))))
       = Some AwaitOutletPromise"
proof -
  have p1: "pending (setLockTargetState LockTargetState_SECURED acc0)
              = Some (AwaitLockPromise LockTargetState_SECURED)"
    by (simp add: run_defs example_defs hap_defs)
  have p2: "pending (setOutletOn (Bool True) (acc0\<lparr>sessionAlive := True\<rparr>))
              = Some AwaitOutletPromise"
    and e2: "\<not> exited (setOutletOn (Bool True) (acc0\<lparr>sessionAlive := True\<rparr>))"
    by (simp_all add: run_defs example_defs hap_defs)
  have p3: "(pending (setOutletOn (Bool True)
                (setLockTargetState LockTargetState_SECURED (acc0\<lparr>sessionAlive := True\<rparr>)))
               = Some (AwaitLockPromise LockTargetState_SECURED)
             \<or> pending (setOutletOn (Bool True)
                (setLockTargetState LockTargetState_SECURED (acc0\<lparr>sessionAlive := True\<rparr>)))
               = Some AwaitOutletPromise)
            \<and> queue (setOutletOn (Bool True)
                (setLockTargetState LockTargetState_SECURED (acc0\<lparr>sessionAlive := True\<rparr>)))
               = OutletTask # []"
    by (simp add: run_defs example_defs hap_defs)
  from command_tasks_contain_failure
         [of "setLockTargetState LockTargetState_SECURED acc0" LockTargetState_SECURED] p1
  have c1: "LockCurrentState (states (promise_settled TaskInFlight Rejected
        (setLockTargetState LockTargetState_SECURED acc0))) = LockCurrentState_UNKNOWN"
    by blast
  from command_tasks_contain_failure
         [of "setOutletOn (Bool True) (acc0\<lparr>sessionAlive := True\<rparr>)" _ Rejected] p2 e2
  have c2: "states (promise_settled TaskInFlight Rejected
               (setOutletOn (Bool True) (acc0\<lparr>sessionAlive := True\<rparr>)))
       = states (setOutletOn (Bool True) (acc0\<lparr>sessionAlive := True\<rparr>))
     \<and> \<not> exited (promise_settled TaskInFlight Rejected
               (setOutletOn (Bool True) (acc0\<lparr>sessionAlive := True\<rparr>)))"
    by blast
  from command_tasks_contain_failure
         [of "setOutletOn (Bool True)
                (setLockTargetState LockTargetState_SECURED (acc0\<lparr>sessionAlive := True\<rparr>))"
             LockTargetState_SECURED Rejected OutletTask "[]"] p3
  have c3: "pending (promise_settled TaskInFlight Rejected
        (setOutletOn (Bool True)
           (setLockTargetState LockTargetState_SECURED (acc0\<lparr>sessionAlive := True\<rparr>))))
       = Some AwaitOutletPromise"
    by simp
  from c1 c2 c3 show ?thesis by blast
qed

subsection \<open>The outlet handler while the session is not alive\<close>

text \<open>
  Claim C7, as the code has it. Two calls of \<open>setOutletOn(true)\<close> within the debounce
  window, with the session not alive: the first sets the guard and a timer; the second
  finds the guard set, clears it and returns, scheduling nothing. When the timer fires,
  the re-entrant call made by \<open>setValue(false)\<close> finds the guard clear, so it is not
  suppressed: it warns again, sets the guard again and starts a second timer.
\<close>

theorem setOutletOn_guard_counterexample:
  "\<not> sessionAlive (setOutletOn (Bool True) acc0)
   \<and> resettingOutletOff (setOutletOn (Bool True) acc0)
   \<and> timers (setOutletOn (Bool True) acc0) = 1
   \<and> setOutletOn (Bool True) (setOutletOn (Bool True) acc0)
       = (setOutletOn (Bool True) acc0)\<lparr>resettingOutletOff := False\<rparr>
   \<and> trace (outlet_timeout (setOutletOn (Bool True) (setOutletOn (Bool True) acc0)))
       = [LogWarn, SetValue outlet Key_On (Bool False), LogWarn]
   \<and> resettingOutletOff (outlet_timeout (setOutletOn (Bool True) (setOutletOn (Bool True) acc0)))
   \<and> timers (outlet_timeout (setOutletOn (Bool True) (setOutletOn (Bool True) acc0))) = 1"
  by (simp add: run_defs example_defs hap_defs)

lemma setOutletOn_not_alive:
  "\<not> sessionAlive acc \<Longrightarrow>
   setOutletOn val acc =
     (if resettingOutletOff acc then acc\<lparr>resettingOutletOff := False\<rparr>
      else (emit LogWarn acc)\<lparr>resettingOutletOff := True, timers := Suc (timers acc)\<rparr>)"
  by (simp add: setOutletOn_def)

text \<open>The accessory just before the re-entrant call that a firing timer makes.\<close>

lemma outlet_timeout_unfold:
  "0 < timers s \<Longrightarrow>
   outlet_timeout s =
     setOutletOn (Bool False)
       (s\<lparr>timers := timers s - 1, states := (states s)\<lparr>On := Bool False\<rparr>,
          trace := trace s @ [SetValue outlet Key_On (Bool False)]\<rparr>)"
proof (cases "On (states s) = Bool False")
  case True
  then have same: "(states s)\<lparr>On := Bool False\<rparr> = states s"
    by simp
  assume "0 < timers s"
  then show ?thesis
    using True
    by (simp add: outlet_timeout_def setValue_On_def updateState_def emit_def same)
next
  case False
  assume "0 < timers s"
  then show ?thesis
    using False
    by (simp add: outlet_timeout_def setValue_On_def updateState_def emit_def Let_def)
qed

lemma outlet_timeout_alive:
  "0 < timers s \<Longrightarrow> sessionAlive s \<Longrightarrow>
   outlet_timeout s =
     s\<lparr>timers := timers s - 1, states := (states s)\<lparr>On := Bool False\<rparr>,
        trace := trace s @ [SetValue outlet Key_On (Bool False)]\<rparr>"
  by (simp add: outlet_timeout_unfold) (simp add: setOutletOn_def)

lemma outlet_timeout_suppressed:
  "0 < timers s \<Longrightarrow> \<not> sessionAlive s \<Longrightarrow> resettingOutletOff s \<Longrightarrow>
   outlet_timeout s =
     s\<lparr>timers := timers s - 1, states := (states s)\<lparr>On := Bool False\<rparr>,
        trace := trace s @ [SetValue outlet Key_On (Bool False)],
        resettingOutletOff := False\<rparr>"
  by (simp add: outlet_timeout_unfold) (simp add: setOutletOn_def)

lemma outlet_timeout_not_suppressed:
  "0 < timers s \<Longrightarrow> \<not> sessionAlive s \<Longrightarrow> \<not> resettingOutletOff s \<Longrightarrow>
   outlet_timeout s =
     s\<lparr>timers := timers s, states := (states s)\<lparr>On := Bool False\<rparr>,
        trace := trace s @ [SetValue outlet Key_On (Bool False), LogWarn],
        resettingOutletOff := True\<rparr>"
  by (simp add: outlet_timeout_unfold) (simp add: setOutletOn_def emit_def)

lemma outlet_timeout_cases:
  assumes "0 < timers s"
  shows "On (states (outlet_timeout s)) = Bool False
   \<and> queue (outlet_timeout s) = queue s
   \<and> pending (outlet_timeout s) = pending s
   \<and> (emitted s (outlet_timeout s) = [SetValue outlet Key_On (Bool False)]
       \<or> emitted s (outlet_timeout s) = [SetValue outlet Key_On (Bool False), LogWarn])"
proof (cases "sessionAlive s")
  case True
  show ?thesis
    by (simp add: outlet_timeout_alive [OF assms True] emitted_def)
next
  case False
  show ?thesis
  proof (cases "resettingOutletOff s")
    case True
    show ?thesis
      by (simp add: outlet_timeout_suppressed [OF assms False True] emitted_def)
  next
    case clear: False
    show ?thesis
      by (simp add: outlet_timeout_not_suppressed [OF assms False clear] emitted_def)
  qed
qed

text \<open>
  Claim C7, amended. A call of \<open>setOutletOn\<close> while the session is not alive calls no
  API method, queues nothing and leaves the stored state: if the guard
  \<open>resettingOutletOff\<close> is set it only clears the guard, and if the guard is clear it
  warns, sets the guard and starts one timer. Whenever a timer fires, in any state
  \<open>s\<close> of the accessory, On is stored as false and \<open>setValue(false)\<close> is sent first,
  no API method is called and nothing is queued. The re-entrant call that \<open>setValue\<close>
  makes is suppressed when it finds the session not alive and the guard set: it clears
  the guard and does nothing else. When it finds the session not alive and the guard
  clear, it is not suppressed: it warns, sets the guard and starts a timer. So the
  guard suppresses one call, the first to arrive; when nothing happens between the
  call that set it and the timeout, that is the re-entrant call of the revert.
\<close>

theorem setOutletOn_not_alive_revert:
  assumes dead: "\<not> sessionAlive acc"
  shows "queue (setOutletOn val acc) = queue acc
   \<and> pending (setOutletOn val acc) = pending acc
   \<and> ApiCall c \<notin> set (emitted acc (setOutletOn val acc))
   \<and> states (setOutletOn val acc) = states acc
   \<and> (resettingOutletOff acc \<longrightarrow>
        setOutletOn val acc = acc\<lparr>resettingOutletOff := False\<rparr>)
   \<and> (\<not> resettingOutletOff acc \<longrightarrow>
        setOutletOn val acc =
          (emit LogWarn acc)\<lparr>resettingOutletOff := True, timers := Suc (timers acc)\<rparr>)
   \<and> (0 < timers s \<longrightarrow>
        On (states (outlet_timeout s)) = Bool False
        \<and> take 1 (emitted s (outlet_timeout s)) = [SetValue outlet Key_On (Bool False)]
        \<and> ApiCall c \<notin> set (emitted s (outlet_timeout s))
        \<and> queue (outlet_timeout s) = queue s
        \<and> pending (outlet_timeout s) = pending s)
   \<and> (0 < timers s \<and> \<not> sessionAlive s \<and> resettingOutletOff s \<longrightarrow>
        emitted s (outlet_timeout s) = [SetValue outlet Key_On (Bool False)]
        \<and> \<not> resettingOutletOff (outlet_timeout s)
        \<and> timers (outlet_timeout s) = timers s - 1)
   \<and> (0 < timers s \<and> \<not> sessionAlive s \<and> \<not> resettingOutletOff s \<longrightarrow>
        emitted s (outlet_timeout s) = [SetValue outlet Key_On (Bool False), LogWarn]
        \<and> resettingOutletOff (outlet_timeout s)
        \<and> timers (outlet_timeout s) = timers s)
   \<and> (\<not> resettingOutletOff acc \<longrightarrow>
        On (states (outlet_timeout (setOutletOn val acc))) = Bool False
        \<and> emitted (setOutletOn val acc) (outlet_timeout (setOutletOn val acc))
            = [SetValue outlet Key_On (Bool False)]
        \<and> \<not> resettingOutletOff (outlet_timeout (setOutletOn val acc))
        \<and> timers (outlet_timeout (setOutletOn val acc)) = timers acc)"
proof (intro conjI impI)
  show "queue (setOutletOn val acc) = queue acc"
    and "pending (setOutletOn val acc) = pending acc"
    and "states (setOutletOn val acc) = states acc"
    using dead by (simp_all add: setOutletOn_not_alive emit_def)
  show "ApiCall c \<notin> set (emitted acc (setOutletOn val acc))"
    using dead by (simp add: setOutletOn_not_alive emitted_def emit_def)
next
  assume "resettingOutletOff acc"
  then show "setOutletOn val acc = acc\<lparr>resettingOutletOff := False\<rparr>"
    using dead by (simp add: setOutletOn_not_alive)
next
  assume "\<not> resettingOutletOff acc"
  then show "setOutletOn val acc =
          (emit LogWarn acc)\<lparr>resettingOutletOff := True, timers := Suc (timers acc)\<rparr>"
    using dead by (simp add: setOutletOn_not_alive)
next
  assume t: "0 < timers s"
  note c = outlet_timeout_cases [OF t]
  from c show "On (states (outlet_timeout s)) = Bool False"
    and "queue (outlet_timeout s) = queue s"
    and "pending (outlet_timeout s) = pending s"
    by simp_all
  from c show "take 1 (emitted s (outlet_timeout s)) = [SetValue outlet Key_On (Bool False)]"
    by auto
  from c show "ApiCall c \<notin> set (emitted s (outlet_timeout s))"
    by auto
next
  assume a: "0 < timers s \<and> \<not> sessionAlive s \<and> resettingOutletOff s"
  then have eq: "outlet_timeout s =
     s\<lparr>timers := timers s - 1, states := (states s)\<lparr>On := Bool False\<rparr>,
        trace := trace s @ [SetValue outlet Key_On (Bool False)],
        resettingOutletOff := False\<rparr>"
    by (simp add: outlet_timeout_suppressed)
  show "emitted s (outlet_timeout s) = [SetValue outlet Key_On (Bool False)]"
    and "\<not> resettingOutletOff (outlet_timeout s)"
    and "timers (outlet_timeout s) = timers s - 1"
    by (simp_all add: eq emitted_def)
next
  assume a: "0 < timers s \<and> \<not> sessionAlive s \<and> \<not> resettingOutletOff s"
  then have eq: "outlet_timeout s =
     s\<lparr>timers := timers s, states := (states s)\<lparr>On := Bool False\<rparr>,
        trace := trace s @ [SetValue outlet Key_On (Bool False), LogWarn],
        resettingOutletOff := True\<rparr>"
    by (simp add: outlet_timeout_not_suppressed)
  show "emitted s (outlet_timeout s) = [SetValue outlet Key_On (Bool False), LogWarn]"
    and "resettingOutletOff (outlet_timeout s)"
    and "timers (outlet_timeout s) = timers s"
    by (simp_all add: eq emitted_def)
next
  assume clear: "\<not> resettingOutletOff acc"
  have s1: "setOutletOn val acc =
          (emit LogWarn acc)\<lparr>resettingOutletOff := True, timers := Suc (timers acc)\<rparr>"
    using dead clear by (simp add: setOutletOn_not_alive)
  have t1: "0 < timers (setOutletOn val acc)"
    and d1: "\<not> sessionAlive (setOutletOn val acc)"
    and g1: "resettingOutletOff (setOutletOn val acc)"
    using dead by (simp_all add: s1 emit_def)
  note eq = outlet_timeout_suppressed [OF t1 d1 g1]
  show "On (states (outlet_timeout (setOutletOn val acc))) = Bool False"
    and "\<not> resettingOutletOff (outlet_timeout (setOutletOn val acc))"
    by (simp_all add: eq)
  show "timers (outlet_timeout (setOutletOn val acc)) = timers acc"
    by (simp add: eq) (simp add: s1)
  show "emitted (setOutletOn val acc) (outlet_timeout (setOutletOn val acc))
            = [SetValue outlet Key_On (Bool False)]"
    by (rule emitted_append) (simp add: eq)
qed

theorem setOutletOn_not_alive_revert_witness:
  "\<not> sessionAlive acc0
   \<and> ApiCall SessionUnpause \<notin> set (emitted acc0 (setOutletOn (Bool True) acc0))
   \<and> setOutletOn (Bool True) (acc0\<lparr>resettingOutletOff := True\<rparr>) = acc0
   \<and> On (states (outlet_timeout (setOutletOn (Bool True) acc0))) = Bool False
   \<and> emitted (setOutletOn (Bool True) acc0) (outlet_timeout (setOutletOn (Bool True) acc0))
            = [SetValue outlet Key_On (Bool False)]
   \<and> \<not> resettingOutletOff (outlet_timeout (setOutletOn (Bool True) acc0))
   \<and> emitted (setOutletOn (Bool True) (setOutletOn (Bool True) acc0))
         (outlet_timeout (setOutletOn (Bool True) (setOutletOn (Bool True) acc0)))
       = [SetValue outlet Key_On (Bool False), LogWarn]"
proof -
  have dead: "\<not> sessionAlive acc0" and clear: "\<not> resettingOutletOff acc0"
    by (simp_all add: example_defs)
  have dead': "\<not> sessionAlive (acc0\<lparr>resettingOutletOff := True\<rparr>)"
    and flag': "resettingOutletOff (acc0\<lparr>resettingOutletOff := True\<rparr>)"
    by (simp_all add: example_defs)
  have restore: "acc0\<lparr>resettingOutletOff := True\<rparr>\<lparr>resettingOutletOff := False\<rparr> = acc0"
    by (simp add: example_defs)
  have once: "0 < timers (setOutletOn (Bool True) acc0)
              \<and> \<not> sessionAlive (setOutletOn (Bool True) acc0)
              \<and> resettingOutletOff (setOutletOn (Bool True) acc0)"
    by (simp add: run_defs example_defs)
  have twice: "0 < timers (setOutletOn (Bool True) (setOutletOn (Bool True) acc0))
              \<and> \<not> sessionAlive (setOutletOn (Bool True) (setOutletOn (Bool True) acc0))
              \<and> \<not> resettingOutletOff (setOutletOn (Bool True) (setOutletOn (Bool True) acc0))"
    by (simp add: run_defs example_defs)
  from setOutletOn_not_alive_revert
         [OF dead, of "Bool True" SessionUnpause "setOutletOn (Bool True) acc0"] clear once
  have a: "ApiCall SessionUnpause \<notin> set (emitted acc0 (setOutletOn (Bool True) acc0))
   \<and> On (states (outlet_timeout (setOutletOn (Bool True) acc0))) = Bool False
   \<and> emitted (setOutletOn (Bool True) acc0) (outlet_timeout (setOutletOn (Bool True) acc0))
            = [SetValue outlet Key_On (Bool False)]
   \<and> \<not> resettingOutletOff (outlet_timeout (setOutletOn (Bool True) acc0))"
    by blast
  from setOutletOn_not_alive_revert
         [OF dead', of "Bool True" SessionUnpause
            "setOutletOn (Bool True) (setOutletOn (Bool True) acc0)"] flag' restore twice
  have b: "setOutletOn (Bool True) (acc0\<lparr>resettingOutletOff := True\<rparr>) = acc0
   \<and> emitted (setOutletOn (Bool True) (setOutletOn (Bool True) acc0))
         (outlet_timeout (setOutletOn (Bool True) (setOutletOn (Bool True) acc0)))
       = [SetValue outlet Key_On (Bool False), LogWarn]"
    by metis
  from a b dead show ?thesis by blast
qed

subsection \<open>The queue is never idle with tasks waiting\<close>

text \<open>
  The fresh accessory has an empty, idle queue, and every step keeps the property that
  the waiting list is empty whenever no task is in flight.
\<close>

lemma queue_idle_empty_initial: "queue_idle_empty (initial_accessory dev now)"
  by (simp add: queue_idle_empty_def initial_accessory_def)

lemma queue_idle_empty_tryToStartAnother:
  "queue_idle_empty (tryToStartAnother acc)"
  by (cases "pending acc"; cases "queue acc")
     (simp_all add: tryToStartAnother_def queue_idle_empty_def pending_start_task)

lemma queue_idle_empty_queue_add: "queue_idle_empty (queue_add t acc)"
  by (simp add: queue_add_def queue_idle_empty_tryToStartAnother)

lemma queue_idle_empty_task_settled: "queue_idle_empty (task_settled t b acc)"
  by (simp add: task_settled_def queue_idle_empty_tryToStartAnother)

lemma queue_idle_empty_computeAll [simp]:
  "queue_idle_empty (computeAll acc) = queue_idle_empty acc"
  by (simp add: computeAll_def Let_def)

lemma queue_idle_empty_unhandled_rejection [simp]:
  "queue_idle_empty (unhandled_rejection acc) = queue_idle_empty acc"
  by (simp add: unhandled_rejection_def queue_idle_empty_def emit_def)

lemma queue_idle_empty_setOutletOn:
  "queue_idle_empty acc \<Longrightarrow> queue_idle_empty (setOutletOn v acc)"
  by (simp add: setOutletOn_def Let_def queue_idle_empty_queue_add)
     (simp add: queue_idle_empty_def emit_def)

lemma queue_idle_empty_steps:
  assumes "queue_idle_empty acc"
  shows "queue_idle_empty (checkSession acc)"
    and "queue_idle_empty (interval_tick d u n acc)"
    and "queue_idle_empty (session_settled r acc)"
    and "queue_idle_empty (sessionAlive_settled a acc)"
    and "queue_idle_empty (setLockTargetState v acc)"
    and "queue_idle_empty (setOutletOn v acc)"
    and "queue_idle_empty (promise_settled h p acc)"
    and "queue_idle_empty (outlet_timeout acc)"
proof -
  show "queue_idle_empty (checkSession acc)"
    by (simp add: checkSession_def queue_idle_empty_queue_add)
  show "queue_idle_empty (interval_tick d u n acc)"
    using assms by (simp add: interval_tick_def checkSession_def queue_idle_empty_queue_add)
  show "queue_idle_empty (session_settled r acc)"
    using assms
    by (auto simp: session_settled_def queue_idle_empty_task_settled
          split: option.splits awaiting.splits outcome.splits)
       (simp add: queue_idle_empty_def emit_def)
  show "queue_idle_empty (sessionAlive_settled a acc)"
    using assms
    by (auto simp: sessionAlive_settled_def queue_idle_empty_task_settled
          split: option.splits awaiting.splits)
  show "queue_idle_empty (setOutletOn v acc)"
    using assms by (rule queue_idle_empty_setOutletOn)
  show "queue_idle_empty (setLockTargetState v acc)"
    using assms by (simp add: setLockTargetState_def Let_def queue_idle_empty_queue_add)
  show "queue_idle_empty (promise_settled h p acc)"
    using assms
    by (auto simp: promise_settled_def queue_idle_empty_task_settled
          split: holder.splits option.splits awaiting.splits outcome.splits)
  have "queue_idle_empty (acc\<lparr>timers := timers acc - 1\<rparr>)"
    using assms by (simp add: queue_idle_empty_def)
  then show "queue_idle_empty (outlet_timeout acc)"
    using assms by (simp add: outlet_timeout_def setValue_On_def queue_idle_empty_setOutletOn)
qed

lemma queue_idle_empty_step: "queue_idle_empty acc \<Longrightarrow> queue_idle_empty (step i acc)"
  by (cases i) (simp_all add: step_def queue_idle_empty_steps)

lemma queue_idle_empty_run: "queue_idle_empty acc \<Longrightarrow> queue_idle_empty (run is acc)"
  by (induction "is" arbitrary: acc) (simp_all add: queue_idle_empty_step)

lemma run_exited: "exited acc \<Longrightarrow> run is acc = acc"
  by (induction "is" arbitrary: acc) (simp_all add: step_def)

section \<open>Properties of the API client\<close>

lemma header_none_iff:
  "authSessionHeader now api = None \<longleftrightarrow>
     (case authSession api of None \<Rightarrow> True | Some s \<Rightarrow> \<not> date_after (expires s) now)"
  by (simp add: authSessionHeader_def isAuthSessionValid_def split: option.splits)

lemma net_calls_request_valid:
  "authSessionHeader (now_check w) api \<noteq> None \<Longrightarrow>
   net_calls (request w m ep opts api) =
     [EndpointFetch m ep (merged_headers (authSessionHeader (now_send w) api) (headers opts))]"
  by (auto simp: request_def net_calls_def Let_def
        split: option.splits parsed.splits)

lemma net_calls_request_reauth:
  "authSessionHeader (now_check w) api = None \<Longrightarrow>
   net_calls (request w m ep opts api) =
     (case fst (auth w api) of
        Inl e \<Rightarrow> [TokenFetch]
      | Inr u \<Rightarrow>
          [TokenFetch,
           EndpointFetch m ep
             (merged_headers (authSessionHeader (now_send w) (snd (auth w api))) (headers opts))])"
  by (cases "auth w api")
     (auto simp: request_def net_calls_def Let_def
        split: option.splits parsed.splits sum.splits)

text \<open>
  Claim C6. When \<open>request\<close> is invoked with a cached session whose \<open>expires\<close> is after
  the clock, it makes no call of the token endpoint: its only fetch is the request
  itself. With no cached session, or one whose \<open>expires\<close> is not after the clock, it
  makes exactly one call of the token endpoint, first; the request follows it when the
  authentication succeeds, and is not sent when it fails.
\<close>

theorem request_auth_calls:
  "((\<exists>s. authSession api = Some s \<and> date_after (expires s) (now_check w)) \<longrightarrow>
      auth_calls (net_calls (request w m ep opts api)) = 0
      \<and> net_calls (request w m ep opts api) =
          [EndpointFetch m ep
             (merged_headers (authSessionHeader (now_send w) api) (headers opts))])
   \<and> ((authSession api = None
        \<or> (\<exists>s. authSession api = Some s \<and> \<not> date_after (expires s) (now_check w))) \<longrightarrow>
      auth_calls (net_calls (request w m ep opts api)) = 1
      \<and> net_calls (request w m ep opts api) =
          (case fst (auth w api) of
             Inl e \<Rightarrow> [TokenFetch]
           | Inr u \<Rightarrow>
               [TokenFetch,
                EndpointFetch m ep
                  (merged_headers (authSessionHeader (now_send w) (snd (auth w api)))
                     (headers opts))]))"
proof (intro conjI impI)
  assume "\<exists>s. authSession api = Some s \<and> date_after (expires s) (now_check w)"
  then have v: "authSessionHeader (now_check w) api \<noteq> None"
    by (auto simp: header_none_iff)
  show "net_calls (request w m ep opts api) =
          [EndpointFetch m ep
             (merged_headers (authSessionHeader (now_send w) api) (headers opts))]"
    by (rule net_calls_request_valid [OF v])
  then show "auth_calls (net_calls (request w m ep opts api)) = 0"
    by (simp add: auth_calls_def)
next
  assume "authSession api = None
          \<or> (\<exists>s. authSession api = Some s \<and> \<not> date_after (expires s) (now_check w))"
  then have n: "authSessionHeader (now_check w) api = None"
    by (auto simp: header_none_iff)
  show c: "net_calls (request w m ep opts api) =
          (case fst (auth w api) of
             Inl e \<Rightarrow> [TokenFetch]
           | Inr u \<Rightarrow>
               [TokenFetch,
                EndpointFetch m ep
                  (merged_headers (authSessionHeader (now_send w) (snd (auth w api)))
                     (headers opts))])"
    by (rule net_calls_request_reauth [OF n])
  show "auth_calls (net_calls (request w m ep opts api)) = 1"
    by (simp add: c auth_calls_def split: sum.splits)
qed

lemmas api_defs = request_def auth_def authSessionHeader_def isAuthSessionValid_def
  set_authSession_def merged_headers_def net_calls_def auth_calls_def Let_def
  token_ok_def world1_def api_with_def opts_alive_def new_Date_def date_after_def

theorem request_auth_calls_witness:
  "net_calls (request world1 GET ''api/session/alive'' opts_alive (api_with 9000)) =
     [EndpointFetch GET ''api/session/alive''
        [(''Accept'', ''application/json''), (''Content-Type'', ''application/json''),
         (''Authorization'', ''Bearer tok1'')]]
   \<and> net_calls (request world1 GET ''api/session/alive'' opts_alive (api_with 4000)) =
     [TokenFetch,
      EndpointFetch GET ''api/session/alive''
        [(''Accept'', ''application/json''), (''Content-Type'', ''application/json''),
         (''Authorization'', ''Bearer tok2'')]]
   \<and> auth_calls (net_calls (request world1 GET ''api/session/alive'' opts_alive
                               \<lparr>authSession = None\<rparr>)) = 1"
proof -
  have v: "\<exists>s. authSession (api_with 9000) = Some s \<and> date_after (expires s) (now_check world1)"
    by (simp add: api_with_def world1_def date_after_def)
  have x: "authSession (api_with 4000) = None
           \<or> (\<exists>s. authSession (api_with 4000) = Some s
                  \<and> \<not> date_after (expires s) (now_check world1))"
    by (simp add: api_with_def world1_def date_after_def)
  have n: "authSession \<lparr>authSession = None\<rparr> = None
           \<or> (\<exists>s. authSession \<lparr>authSession = None\<rparr> = Some s
                  \<and> \<not> date_after (expires s) (now_check world1))"
    by simp
  have a1: "merged_headers (authSessionHeader (now_send world1) (api_with 9000)) (headers opts_alive)
            = [(''Accept'', ''application/json''), (''Content-Type'', ''application/json''),
               (''Authorization'', ''Bearer tok1'')]"
    by (simp add: api_defs)
  have a2: "(case fst (auth world1 (api_with 4000)) of
             Inl e \<Rightarrow> [TokenFetch]
           | Inr u \<Rightarrow>
               [TokenFetch,
                EndpointFetch GET ''api/session/alive''
                  (merged_headers (authSessionHeader (now_send world1) (snd (auth world1 (api_with 4000))))
                     (headers opts_alive))])
           = [TokenFetch,
              EndpointFetch GET ''api/session/alive''
                [(''Accept'', ''application/json''), (''Content-Type'', ''application/json''),
                 (''Authorization'', ''Bearer tok2'')]]"
    by (simp add: api_defs)
  from request_auth_calls [of "api_with 9000" world1 GET "''api/session/alive''" opts_alive] v a1
  have c1: "net_calls (request world1 GET ''api/session/alive'' opts_alive (api_with 9000)) =
     [EndpointFetch GET ''api/session/alive''
        [(''Accept'', ''application/json''), (''Content-Type'', ''application/json''),
         (''Authorization'', ''Bearer tok1'')]]"
    by simp
  from request_auth_calls [of "api_with 4000" world1 GET "''api/session/alive''" opts_alive] x a2
  have c2: "net_calls (request world1 GET ''api/session/alive'' opts_alive (api_with 4000)) =
     [TokenFetch,
      EndpointFetch GET ''api/session/alive''
        [(''Accept'', ''application/json''), (''Content-Type'', ''application/json''),
         (''Authorization'', ''Bearer tok2'')]]"
    by simp
  from request_auth_calls [of "\<lparr>authSession = None\<rparr>" world1 GET "''api/session/alive''" opts_alive] n
  have c3: "auth_calls (net_calls (request world1 GET ''api/session/alive'' opts_alive
                               \<lparr>authSession = None\<rparr>)) = 1"
    by blast
  from c1 c2 c3 show ?thesis by blast
qed

end
